theory Spec2Isabelle
  imports Main "HOL-Library.Multiset"
begin

section \<open>The QUBO coefficient table\<close>

text \<open>
  The notebook \<^verbatim>\<open>Running_large_problems_using_QBSolv.ipynb\<close> builds its problem in
  one cell:
  \<^verbatim>\<open>
  QUBO = defaultdict(int)
  for u, v in Graph.edges:
      QUBO[(u,u)]+= -1
      QUBO[(v,v)]+= -3
      QUBO[(u,v)]+= 2
  \<close>
  Nodes are Python integers, an edge is a 2-tuple of nodes, and the keys of the table
  are 2-tuples as well. A Python dictionary keeps its keys in insertion order, so the
  table is an association list with distinct keys, the newest key last.
\<close>

type_synonym node = int
type_synonym edge = "node \<times> node"
type_synonym key = "node \<times> node"
type_synonym qubo = "(key \<times> int) list"

text \<open>
  \<^verbatim>\<open>QUBO[k] += c\<close> on a \<^verbatim>\<open>defaultdict(int)\<close>: reading a missing key creates it with the
  value \<open>0\<close> (at the end of the dictionary), then the sum is stored under the key.
\<close>

fun iadd :: "qubo \<Rightarrow> key \<Rightarrow> int \<Rightarrow> qubo" where
  "iadd [] k c = [(k, 0 + c)]"
| "iadd ((k', x) # Q) k c = (if k' = k then (k', x + c) # Q else (k', x) # iadd Q k c)"

text \<open>The body of the loop, for one edge \<open>(u, v)\<close>: three updates, in the order of the source.\<close>

fun loop_body :: "qubo \<Rightarrow> edge \<Rightarrow> qubo" where
  "loop_body Q (u, v) = iadd (iadd (iadd Q (u, u) (- 1)) (v, v) (- 3)) (u, v) 2"

text \<open>The \<^verbatim>\<open>for\<close> loop over the edges, threading the table through.\<close>

fun QUBO_loop :: "qubo \<Rightarrow> edge list \<Rightarrow> qubo" where
  "QUBO_loop Q [] = Q"
| "QUBO_loop Q (e # es) = QUBO_loop (loop_body Q e) es"

text \<open>\<^verbatim>\<open>QUBO = defaultdict(int)\<close> followed by the loop.\<close>

definition QUBO_of :: "edge list \<Rightarrow> qubo" where
  "QUBO_of es = QUBO_loop [] es"

text \<open>
  Reading the table: \<open>contains\<close> is Python's \<^verbatim>\<open>k in QUBO\<close>, \<open>coeff\<close> is the value a
  \<^verbatim>\<open>defaultdict(int)\<close> gives for \<^verbatim>\<open>QUBO[k]\<close> (\<open>0\<close> for a key that is not stored), and
  \<open>sum_values\<close> is \<^verbatim>\<open>sum(QUBO.values())\<close>.
\<close>

definition contains :: "qubo \<Rightarrow> key \<Rightarrow> bool" where
  "contains Q k = (map_of Q k \<noteq> None)"

definition coeff :: "qubo \<Rightarrow> key \<Rightarrow> int" where
  "coeff Q k = (case map_of Q k of None \<Rightarrow> 0 | Some x \<Rightarrow> x)"

definition sum_values :: "qubo \<Rightarrow> int" where
  "sum_values Q = sum_list (map snd Q)"

text \<open>
  Equality of two dictionaries in Python (\<^verbatim>\<open>==\<close>): the same number of keys, and every
  item of the first is an item of the second; the order of insertion plays no part.
\<close>

definition dict_eq :: "qubo \<Rightarrow> qubo \<Rightarrow> bool" where
  "dict_eq Q Q' = (length Q = length Q' \<and> list_all (\<lambda>(k, x). map_of Q' k = Some x) Q)"

text \<open>How often a node is the first, and the second, component of an edge of the list.\<close>

definition as_first :: "edge list \<Rightarrow> node \<Rightarrow> int" where
  "as_first es w = int (count_list (map fst es) w)"

definition as_second :: "edge list \<Rightarrow> node \<Rightarrow> int" where
  "as_second es w = int (count_list (map snd es) w)"

definition occurrences :: "edge list \<Rightarrow> edge \<Rightarrow> int" where
  "occurrences es e = int (count_list es e)"

text \<open>
  The table as the specification words it: an all-zero table, a coefficient for every
  pair of nodes, to which each edge \<open>(u, v)\<close> applies the increments \<open>diagonal(u) -= 1\<close>,
  \<open>diagonal(v) -= 3\<close>, \<open>off-diagonal(u,v) += 2\<close>.
\<close>

definition spec_increments :: "edge \<Rightarrow> (key \<Rightarrow> int) \<Rightarrow> (key \<Rightarrow> int)" where
  "spec_increments e T =
     (let u = fst e; v = snd e;
          T1 = T((u, u) := T (u, u) - 1);
          T2 = T1((v, v) := T1 (v, v) - 3)
      in T2((u, v) := T2 (u, v) + 2))"

definition spec_table :: "edge list \<Rightarrow> key \<Rightarrow> int" where
  "spec_table es = fold spec_increments es (\<lambda>k. 0)"

section \<open>The size of the random graph\<close>

text \<open>
  \<^verbatim>\<open>
  nodes = 240
  edges = round(nodes * (nodes-1)/2 * 0.4)
  seed = 2
  \<close>
  \<^verbatim>\<open>/\<close> is Python's true division and \<^verbatim>\<open>0.4\<close> a float literal, so the edge count is
  computed in binary64 arithmetic. A binary64 number is a pair \<open>(m, e)\<close> of integers
  standing for \<open>m * 2 ^ e\<close>; every operation computes the exact rational result and
  rounds it to the nearest number with a 53-bit mantissa, ties to the even mantissa.
  Only positive numbers in the range of the normal numbers occur here (no overflow, no
  subnormal number), and only those are modelled.
\<close>

type_synonym float64 = "int \<times> int"

text \<open>The quotient \<open>a / b\<close> (for \<open>b > 0\<close>) rounded to the nearest integer, ties to even.\<close>

definition round_half_even :: "int \<Rightarrow> int \<Rightarrow> int" where
  "round_half_even a b =
     (let q = a div b; r = a mod b
      in if b < 2 * r \<or> (2 * r = b \<and> odd q) then q + 1 else q)"

text \<open>The number of binary digits of a positive integer (Python's \<^verbatim>\<open>int.bit_length\<close>).\<close>

function bit_length :: "int \<Rightarrow> int" where
  "bit_length n = (if n \<le> 0 then 0 else 1 + bit_length (n div 2))"
  by pat_completeness auto
termination
  by (relation "measure nat") auto

text \<open>
  The binary64 number nearest to the rational \<open>a / b\<close>, for \<open>a > 0\<close> and \<open>b > 0\<close>: the
  exponent \<open>- k\<close> is chosen such that \<open>a / b * 2 ^ k\<close> lies in \<open>[2 ^ 52, 2 ^ 53)\<close>, and that
  number is rounded to an integer mantissa.
\<close>

definition to_float64 :: "int \<Rightarrow> int \<Rightarrow> float64" where
  "to_float64 a b =
     (if a = 0 then (0, 0)
      else let k0 = 53 + bit_length b - bit_length a;
               k = (if b * 2 ^ nat (- k0) * 2 ^ 53 \<le> a * 2 ^ nat k0 then k0 - 1 else k0)
           in (round_half_even (a * 2 ^ nat k) (b * 2 ^ nat (- k)), - k))"

text \<open>A decimal literal \<^verbatim>\<open>0.4\<close> is read as the nearest binary64 number to \<open>4 / 10\<close>.\<close>

definition float_literal :: "int \<Rightarrow> int \<Rightarrow> float64" where
  "float_literal a b = to_float64 a b"

text \<open>\<^verbatim>\<open>a / b\<close> on two Python integers: the correctly rounded quotient.\<close>

definition int_truediv :: "int \<Rightarrow> int \<Rightarrow> float64" where
  "int_truediv a b = to_float64 a b"

text \<open>\<^verbatim>\<open>x * y\<close> on two floats: the exact product, rounded.\<close>

fun float_mul :: "float64 \<Rightarrow> float64 \<Rightarrow> float64" where
  "float_mul (m1, e1) (m2, e2) =
     to_float64 (m1 * m2 * 2 ^ nat (e1 + e2)) (2 ^ nat (- (e1 + e2)))"

text \<open>\<^verbatim>\<open>round(x)\<close> on a float, with no second argument: the nearest integer, ties to even.\<close>

fun py_round :: "float64 \<Rightarrow> int" where
  "py_round (m, e) = round_half_even (m * 2 ^ nat e) (2 ^ nat (- e))"

definition nodes :: int where
  "nodes = 240"

definition edges :: int where
  "edges = py_round (float_mul (int_truediv (nodes * (nodes - 1)) 2) (float_literal 4 10))"

definition seed :: int where
  "seed = 2"

section \<open>The notebook as a program over external calls\<close>

text \<open>
  The first code cell only imports names. Everything else the notebook does is a call
  into a library: \<^verbatim>\<open>networkx\<close>,
  \<^verbatim>\<open>minorminer\<close>, the Braket and D-Wave samplers, \<^verbatim>\<open>QBSolv\<close>. The libraries are not part
  of the notebook, so their answers are a parameter of the model: a \<open>world\<close> answers
  every call, knowing the calls made so far, either with a value or with an exception.
  A value is a Python integer, string or tuple, an edge view, the coefficient table, or
  an opaque object of a library.
\<close>

datatype val =
    NoneV
  | IntV int
  | StrV string
  | TupleV "val list"
  | EdgesV "edge list"
  | QuboV qubo
  | ObjV nat

datatype exn = Exn string

text \<open>
  A call of a function \<^verbatim>\<open>f(args, kw=...)\<close>, of a method \<^verbatim>\<open>obj.m(args, kw=...)\<close>, or the
  read of an attribute \<^verbatim>\<open>obj.a\<close> of a library object.
\<close>

datatype call =
    Call string "val list" "(string \<times> val) list"
  | Method val string "val list" "(string \<times> val) list"
  | GetAttr val string

type_synonym event = "call \<times> (exn + val)"
type_synonym world = "event list \<Rightarrow> call \<Rightarrow> exn + val"

text \<open>
  A piece of the notebook runs in a world, from the trace of the calls made so far, to a
  result (an exception that leaves the notebook, or a value) and the longer trace. The
  notebook has no \<^verbatim>\<open>try\<close> statement, so sequencing is the only way to combine two
  pieces: the second runs if the first returned.
\<close>

type_synonym 'a prog = "world \<Rightarrow> event list \<Rightarrow> (exn + 'a) \<times> event list"

definition ret :: "'a \<Rightarrow> 'a prog" where
  "ret x = (\<lambda>w tr. (Inr x, tr))"

definition ext :: "call \<Rightarrow> val prog" where
  "ext c = (\<lambda>w tr. (w tr c, tr @ [(c, w tr c)]))"

definition seq :: "'a prog \<Rightarrow> ('a \<Rightarrow> 'b prog) \<Rightarrow> 'b prog" where
  "seq p f = (\<lambda>w tr. case p w tr of (Inl e, tr') \<Rightarrow> (Inl e, tr') | (Inr x, tr') \<Rightarrow> f x w tr')"

text \<open>
  \<^verbatim>\<open>for u, v in Graph.edges\<close> iterates over the edge view and unpacks each item into two
  nodes; on anything else Python raises \<^verbatim>\<open>TypeError\<close>.
\<close>

fun iterate_edges :: "val \<Rightarrow> (edge list) prog" where
  "iterate_edges (EdgesV es) = (\<lambda>w tr. (Inr es, tr))"
| "iterate_edges _ = (\<lambda>w tr. (Inl (Exn ''TypeError''), tr))"

text \<open>The second code cell: the bucket and the folder of the results.\<close>

definition my_bucket :: string where
  "my_bucket = ''amazon-braket-Your-Bucket-Name''"

definition my_prefix :: string where
  "my_prefix = ''Your-Folder-Name''"

definition s3_folder :: val where
  "s3_folder = TupleV [StrV my_bucket, StrV my_prefix]"

text \<open>The third code cell: the random graph and the coefficient table.\<close>

definition cell3 :: "qubo prog" where
  "cell3 =
     seq (ext (Call ''nx.gnm_random_graph'' [IntV nodes, IntV edges, IntV seed] [])) (\<lambda>Graph.
     seq (ext (GetAttr Graph ''edges'')) (\<lambda>Graph_edges.
     seq (iterate_edges Graph_edges) (\<lambda>es.
     ret (QUBO_of es))))"

text \<open>
  The fourth code cell:
  \<^verbatim>\<open>
  solver_limit = 40
  system = BraketDWaveSampler(s3_folder, 'arn:aws:braket:::device/qpu/d-wave/Advantage_system1')
  \<close>
\<close>

definition solver_limit :: int where
  "solver_limit = 40"

definition cell4 :: "val prog" where
  "cell4 =
     ext (Call ''BraketDWaveSampler''
            [s3_folder, StrV ''arn:aws:braket:::device/qpu/d-wave/Advantage_system1''] [])"

text \<open>
  The fifth code cell:
  \<^verbatim>\<open>
  G = nx.complete_graph(solver_limit)
  embedding = minorminer.find_embedding(G.edges, system.edgelist)
  solver = FixedEmbeddingComposite(system, embedding)
  num_repeats = 2
  num_reads = 100
  response = QBSolv().sample_qubo(QUBO, solver=solver, num_repeats=num_repeats,
                                  solver_limit=solver_limit, num_reads=num_reads)
  print(response)
  \<close>
\<close>

definition num_repeats :: int where
  "num_repeats = 2"

definition num_reads :: int where
  "num_reads = 100"

definition cell5 :: "qubo \<Rightarrow> val \<Rightarrow> val prog" where
  "cell5 QUBO system =
     seq (ext (Call ''nx.complete_graph'' [IntV solver_limit] [])) (\<lambda>G.
     seq (ext (GetAttr G ''edges'')) (\<lambda>G_edges.
     seq (ext (GetAttr system ''edgelist'')) (\<lambda>system_edgelist.
     seq (ext (Call ''minorminer.find_embedding'' [G_edges, system_edgelist] [])) (\<lambda>embedding.
     seq (ext (Call ''FixedEmbeddingComposite'' [system, embedding] [])) (\<lambda>solver.
     seq (ext (Call ''QBSolv'' [] [])) (\<lambda>qbsolv.
     seq (ext (Method qbsolv ''sample_qubo'' [QuboV QUBO]
                 [(''solver'', solver), (''num_repeats'', IntV num_repeats),
                  (''solver_limit'', IntV solver_limit), (''num_reads'', IntV num_reads)])) (\<lambda>response.
     seq (ext (Call ''print'' [response] [])) (\<lambda>_.
     ret response))))))))"

text \<open>The cells run top to bottom, from an empty trace.\<close>

definition notebook :: "val prog" where
  "notebook = seq cell3 (\<lambda>QUBO. seq cell4 (\<lambda>system. cell5 QUBO system))"

definition run :: "world \<Rightarrow> (exn + val) \<times> event list" where
  "run w = notebook w []"

text \<open>
  \<open>after p w tr Q\<close>: running \<open>p\<close> in the world \<open>w\<close> from the trace \<open>tr\<close> ends with a
  result and a trace that satisfy \<open>Q\<close>.
\<close>

definition after :: "'a prog \<Rightarrow> world \<Rightarrow> event list \<Rightarrow> ((exn + 'a) \<Rightarrow> event list \<Rightarrow> bool) \<Rightarrow> bool" where
  "after p w tr Q = (case p w tr of (r, tr') \<Rightarrow> Q r tr')"

text \<open>Recognising the calls that the statements below are about.\<close>

fun is_gnm_random_graph :: "event \<Rightarrow> bool" where
  "is_gnm_random_graph (Call f args kw, r) = (f = ''nx.gnm_random_graph'')"
| "is_gnm_random_graph _ = False"

fun is_find_embedding :: "event \<Rightarrow> bool" where
  "is_find_embedding (Call f args kw, r) = (f = ''minorminer.find_embedding'')"
| "is_find_embedding _ = False"

fun is_fixed_embedding_composite :: "event \<Rightarrow> bool" where
  "is_fixed_embedding_composite (Call f args kw, r) = (f = ''FixedEmbeddingComposite'')"
| "is_fixed_embedding_composite _ = False"

fun is_sample_qubo :: "event \<Rightarrow> bool" where
  "is_sample_qubo (Method obj m args kw, r) = (m = ''sample_qubo'')"
| "is_sample_qubo _ = False"

text \<open>
  Two worlds to run the notebook in. In \<open>calm_world\<close> every call returns: an edge view
  for an attribute \<^verbatim>\<open>edges\<close>, an opaque object otherwise. In \<open>stormy_world\<close> the search
  for an embedding raises.
\<close>

fun calm_world :: world where
  "calm_world tr (GetAttr obj a) = (if a = ''edges'' then Inr (EdgesV [(0, 1), (1, 2)]) else Inr (ObjV (length tr)))"
| "calm_world tr c = Inr (ObjV (length tr))"

fun stormy_world :: world where
  "stormy_world tr (Call f args kw) =
     (if f = ''minorminer.find_embedding'' then Inl (Exn ''ValueError'') else calm_world tr (Call f args kw))"
| "stormy_world tr c = calm_world tr c"

text \<open>An edge list without self-loops, as the edges of a simple graph are.\<close>

definition loop_free :: "edge list \<Rightarrow> bool" where
  "loop_free es = list_all (\<lambda>(u, v). u \<noteq> v) es"

text \<open>A node is incident to an edge of the list when it is one of its two ends.\<close>

definition incident :: "edge list \<Rightarrow> node \<Rightarrow> bool" where
  "incident es w = list_ex (\<lambda>(u, v). u = w \<or> v = w) es"

section \<open>Properties of a single update\<close>

lemma map_of_iadd: "map_of (iadd Q k c) = (map_of Q)(k \<mapsto> coeff Q k + c)"
  by (induction Q k c rule: iadd.induct) (auto simp: coeff_def fun_eq_iff)

lemma coeff_iadd: "coeff (iadd Q k c) k' = coeff Q k' + (if k' = k then c else 0)"
  by (simp add: coeff_def map_of_iadd)

lemma contains_iadd: "contains (iadd Q k c) k' = (k' = k \<or> contains Q k')"
  by (simp add: contains_def map_of_iadd)

lemma sum_values_iadd: "sum_values (iadd Q k c) = sum_values Q + c"
  by (induction Q k c rule: iadd.induct) (auto simp: sum_values_def)

lemma keys_iadd: "set (map fst (iadd Q k c)) = insert k (set (map fst Q))"
  by (induction Q k c rule: iadd.induct) auto

lemma distinct_iadd: "distinct (map fst Q) \<Longrightarrow> distinct (map fst (iadd Q k c))"
proof (induction Q k c rule: iadd.induct)
  case (1 k c)
  show ?case by simp
next
  case (2 k' x Q k c)
  then show ?case
    using keys_iadd [of Q k c] by auto
qed

section \<open>Properties of the loop\<close>

lemma coeff_loop_body:
  "coeff (loop_body Q (u, v)) (a, b) =
     coeff Q (a, b) + (if (a, b) = (u, v) then 2 else 0)
       - (if a = b then (if a = u then 1 else 0) + 3 * (if a = v then 1 else 0) else 0)"
  by (simp add: coeff_iadd)

lemma coeff_QUBO_loop:
  "coeff (QUBO_loop Q es) (a, b) =
     coeff Q (a, b) + 2 * occurrences es (a, b)
       - (if a = b then as_first es a + 3 * as_second es a else 0)"
proof (induction es arbitrary: Q)
  case Nil
  show ?case by (simp add: occurrences_def as_first_def as_second_def)
next
  case (Cons e es)
  obtain u v where e: "e = (u, v)" by (cases e)
  show ?case
    unfolding e QUBO_loop.simps Cons.IH coeff_loop_body
    by (simp add: occurrences_def as_first_def as_second_def)
qed

lemma contains_loop_body:
  "contains (loop_body Q (u, v)) k = (k = (u, u) \<or> k = (v, v) \<or> k = (u, v) \<or> contains Q k)"
  by (auto simp: contains_iadd)

lemma contains_QUBO_loop:
  "contains (QUBO_loop Q es) k =
     (contains Q k \<or> (\<exists>(u, v) \<in> set es. k = (u, u) \<or> k = (v, v) \<or> k = (u, v)))"
proof (induction es arbitrary: Q)
  case Nil
  show ?case by simp
next
  case (Cons e es)
  obtain u v where e: "e = (u, v)" by (cases e)
  show ?case
    unfolding e QUBO_loop.simps Cons.IH contains_loop_body
    by auto
qed

lemma sum_values_loop_body: "sum_values (loop_body Q e) = sum_values Q - 2"
  by (cases e) (simp add: sum_values_iadd)

lemma sum_values_QUBO_loop: "sum_values (QUBO_loop Q es) = sum_values Q - 2 * int (length es)"
  by (induction es arbitrary: Q) (simp_all add: sum_values_loop_body)

lemma distinct_loop_body: "distinct (map fst Q) \<Longrightarrow> distinct (map fst (loop_body Q e))"
  by (cases e) (simp add: distinct_iadd)

lemma distinct_QUBO_loop: "distinct (map fst Q) \<Longrightarrow> distinct (map fst (QUBO_loop Q es))"
  by (induction es arbitrary: Q) (simp_all add: distinct_loop_body)

lemma distinct_QUBO_of: "distinct (map fst (QUBO_of es))"
  by (simp add: QUBO_of_def distinct_QUBO_loop)

lemma QUBO_loop_append: "QUBO_loop Q (es @ es') = QUBO_loop (QUBO_loop Q es) es'"
  by (induction es arbitrary: Q) simp_all

lemma coeff_loop_body_spec: "coeff (loop_body Q e) = spec_increments e (coeff Q)"
  by (cases e) (auto simp: spec_increments_def Let_def coeff_iadd fun_eq_iff)

lemma coeff_QUBO_loop_spec: "coeff (QUBO_loop Q es) = fold spec_increments es (coeff Q)"
  by (induction es arbitrary: Q) (simp_all add: coeff_loop_body_spec)

lemma sum_values_Nil: "sum_values [] = 0"
  by (simp add: sum_values_def)

lemma coeff_Nil: "coeff [] k = 0"
  by (simp add: coeff_def)

lemma contains_Nil: "contains [] k = False"
  by (simp add: contains_def)

lemma coeff_QUBO_of:
  "coeff (QUBO_of es) (a, b) =
     2 * occurrences es (a, b) - (if a = b then as_first es a + 3 * as_second es a else 0)"
  by (simp add: QUBO_of_def coeff_QUBO_loop coeff_Nil)

lemma contains_QUBO_of:
  "contains (QUBO_of es) k = (\<exists>(u, v) \<in> set es. k = (u, u) \<or> k = (v, v) \<or> k = (u, v))"
  by (simp add: QUBO_of_def contains_QUBO_loop contains_Nil)

lemma map_of_contains_coeff: "map_of Q k = (if contains Q k then Some (coeff Q k) else None)"
  by (simp add: contains_def coeff_def split: option.splits)

lemma loop_free_occurrences: "loop_free es \<Longrightarrow> occurrences es (u, u) = 0"
  by (auto simp: loop_free_def occurrences_def list_all_iff count_list_0_iff)

section \<open>Dictionaries with the same items\<close>

lemma length_distinct_keys:
  assumes "distinct (map fst Q)"
  shows "length Q = card (dom (map_of Q))"
proof -
  have "length Q = length (map fst Q)" by simp
  also have "\<dots> = card (set (map fst Q))"
    using assms by (simp only: distinct_card)
  also have "set (map fst Q) = dom (map_of Q)"
    by (simp add: dom_map_of_conv_image_fst)
  finally show ?thesis .
qed

lemma dict_eqI:
  assumes "distinct (map fst Q)" and "distinct (map fst Q')" and "map_of Q = map_of Q'"
  shows "dict_eq Q Q'"
proof -
  have "length Q = length Q'"
    using assms by (simp add: length_distinct_keys)
  moreover have "map_of Q' k = Some x" if "(k, x) \<in> set Q" for k x
    using that assms(1) assms(3) by (metis map_of_is_SomeI)
  ultimately show ?thesis
    by (auto simp: dict_eq_def list_all_iff)
qed

lemma mset_occurrences: "mset es = mset es' \<Longrightarrow> occurrences es e = occurrences es' e"
  by (metis occurrences_def count_mset)

lemma mset_as_first: "mset es = mset es' \<Longrightarrow> as_first es w = as_first es' w"
  by (metis as_first_def count_mset mset_map)

lemma mset_as_second: "mset es = mset es' \<Longrightarrow> as_second es w = as_second es' w"
  by (metis as_second_def count_mset mset_map)

lemma mset_map_of_QUBO_of:
  assumes "mset es = mset es'"
  shows "map_of (QUBO_of es) = map_of (QUBO_of es')"
proof
  fix k :: key
  obtain a b where k: "k = (a, b)" by (cases k)
  have "set es = set es'"
    using assms by (rule mset_eq_setD)
  then have "contains (QUBO_of es) k = contains (QUBO_of es') k"
    by (simp add: contains_QUBO_of)
  moreover have "coeff (QUBO_of es) k = coeff (QUBO_of es') k"
    unfolding k coeff_QUBO_of
    by (simp add: mset_occurrences [OF assms] mset_as_first [OF assms] mset_as_second [OF assms])
  ultimately show "map_of (QUBO_of es) k = map_of (QUBO_of es') k"
    by (simp add: map_of_contains_coeff)
qed

section \<open>The edge count\<close>

lemma round_half_even_nearest:
  assumes "0 < b"
  shows "2 * \<bar>round_half_even a b * b - a\<bar> \<le> b"
proof -
  define q r where "q = a div b" and "r = a mod b"
  have a: "a = q * b + r"
    by (simp add: q_def r_def)
  have r: "0 \<le> r" "r < b"
    using assms by (simp_all add: r_def)
  have up: "round_half_even a b = (if b < 2 * r \<or> (2 * r = b \<and> odd q) then q + 1 else q)"
    by (simp add: round_half_even_def Let_def q_def r_def)
  have "2 * \<bar>(if b < 2 * r \<or> (2 * r = b \<and> odd q) then q + 1 else q) * b - (q * b + r)\<bar> \<le> b"
    using r by (auto simp: algebra_simps)
  then show ?thesis
    unfolding up by (subst a)
qed

lemma float_literal_0_4: "float_literal 4 10 = (7205759403792794, - 54)"
  by (simp add: float_literal_def to_float64_def Let_def round_half_even_def)

lemma nodes_truediv: "int_truediv (nodes * (nodes - 1)) 2 = (7883498371153920, - 38)"
  by (simp add: int_truediv_def nodes_def to_float64_def Let_def round_half_even_def)

lemma product_0_4:
  "float_mul (7883498371153920, - 38) (7205759403792794, - 54) = (6306798696923136, - 39)"
  by (simp add: to_float64_def Let_def round_half_even_def)

lemma py_round_product: "py_round (6306798696923136, - 39) = 11472"
  by (simp add: round_half_even_def)

lemma edges_value: "edges = 11472"
  unfolding edges_def float_literal_0_4 nodes_truediv product_0_4 py_round_product ..

section \<open>Running the notebook\<close>

lemma seq_assoc: "seq (seq p f) g = seq p (\<lambda>x. seq (f x) g)"
  by (auto simp: seq_def fun_eq_iff split: prod.splits sum.splits)

lemma seq_ret: "seq (ret x) f = f x"
  by (simp add: seq_def ret_def)

lemma after_seq_ext:
  assumes "\<And>v. after (f v) w (tr @ [(c, Inr v)]) Q"
    and "\<And>e. Q (Inl e) (tr @ [(c, Inl e)])"
  shows "after (seq (ext c) f) w tr Q"
  using assms by (simp add: after_def seq_def ext_def split: sum.splits)

lemma after_seq_iterate_edges:
  assumes "\<And>es. v = EdgesV es \<Longrightarrow> after (f es) w tr Q"
    and "Q (Inl (Exn ''TypeError'')) tr"
  shows "after (seq (iterate_edges v) f) w tr Q"
  using assms by (cases v) (simp_all add: after_def seq_def)

lemma after_ret:
  assumes "Q (Inr x) tr"
  shows "after (ret x) w tr Q"
  using assms by (simp add: after_def ret_def)

lemma after_run:
  assumes "after notebook w [] Q" and "run w = (r, tr)"
  shows "Q r tr"
  using assms by (simp add: after_def run_def)

lemmas notebook_defs = notebook_def cell3_def cell4_def cell5_def seq_assoc seq_ret

lemmas after_rules = after_seq_ext after_seq_iterate_edges after_ret

lemma run_calm_world:
  "run calm_world =
    (Inr (ObjV 9),
     [(Call ''nx.gnm_random_graph'' [IntV nodes, IntV edges, IntV seed] [], Inr (ObjV 0)),
      (GetAttr (ObjV 0) ''edges'', Inr (EdgesV [(0, 1), (1, 2)])),
      (Call ''BraketDWaveSampler''
         [s3_folder, StrV ''arn:aws:braket:::device/qpu/d-wave/Advantage_system1''] [],
       Inr (ObjV 2)),
      (Call ''nx.complete_graph'' [IntV solver_limit] [], Inr (ObjV 3)),
      (GetAttr (ObjV 3) ''edges'', Inr (EdgesV [(0, 1), (1, 2)])),
      (GetAttr (ObjV 2) ''edgelist'', Inr (ObjV 5)),
      (Call ''minorminer.find_embedding'' [EdgesV [(0, 1), (1, 2)], ObjV 5] [], Inr (ObjV 6)),
      (Call ''FixedEmbeddingComposite'' [ObjV 2, ObjV 6] [], Inr (ObjV 7)),
      (Call ''QBSolv'' [] [], Inr (ObjV 8)),
      (Method (ObjV 8) ''sample_qubo'' [QuboV (QUBO_of [(0, 1), (1, 2)])]
         [(''solver'', ObjV 7), (''num_repeats'', IntV num_repeats),
          (''solver_limit'', IntV solver_limit), (''num_reads'', IntV num_reads)],
       Inr (ObjV 9)),
      (Call ''print'' [ObjV 9] [], Inr (ObjV 10))])"
  by (simp add: run_def notebook_defs seq_def ext_def ret_def)

lemma run_stormy_world:
  "run stormy_world =
    (Inl (Exn ''ValueError''),
     [(Call ''nx.gnm_random_graph'' [IntV nodes, IntV edges, IntV seed] [], Inr (ObjV 0)),
      (GetAttr (ObjV 0) ''edges'', Inr (EdgesV [(0, 1), (1, 2)])),
      (Call ''BraketDWaveSampler''
         [s3_folder, StrV ''arn:aws:braket:::device/qpu/d-wave/Advantage_system1''] [],
       Inr (ObjV 2)),
      (Call ''nx.complete_graph'' [IntV solver_limit] [], Inr (ObjV 3)),
      (GetAttr (ObjV 3) ''edges'', Inr (EdgesV [(0, 1), (1, 2)])),
      (GetAttr (ObjV 2) ''edgelist'', Inr (ObjV 5))] @
     (Call ''minorminer.find_embedding'' [EdgesV [(0, 1), (1, 2)], ObjV 5] [],
      Inl (Exn ''ValueError'')) # [])"
  by (simp add: run_def notebook_defs seq_def ext_def ret_def)

section \<open>The coefficient table: closed form\<close>

text \<open>
  C1. The loop, started from the empty table, produces the table of the three
  increments applied edge by edge to the all-zero table: every coefficient reads the
  same. For every edge list of a graph without self-loops, which is what the loop is
  given, the entry at \<open>(u, u)\<close> after the loop is \<open>- 1\<close> times the number of edges with
  first component \<open>u\<close> minus \<open>3\<close> times the number of edges with second component \<open>u\<close>,
  and the entry at \<open>(u, v)\<close> for \<open>u \<noteq> v\<close> is \<open>2\<close> times the number of occurrences of the
  edge \<open>(u, v)\<close>.
\<close>

theorem QUBO_of_closed_form:
  "(\<forall>k. coeff (QUBO_of es) k = spec_table es k) \<and>
   (loop_free es \<longrightarrow> coeff (QUBO_of es) (u, u) = - 1 * as_first es u - 3 * as_second es u) \<and>
   (u \<noteq> v \<longrightarrow> coeff (QUBO_of es) (u, v) = 2 * occurrences es (u, v))"
proof -
  have "coeff [] = (\<lambda>k. 0)"
    by (rule ext) (rule coeff_Nil)
  then have "coeff (QUBO_of es) = spec_table es"
    by (simp add: QUBO_of_def spec_table_def coeff_QUBO_loop_spec)
  then have "\<forall>k. coeff (QUBO_of es) k = spec_table es k"
    by simp
  moreover have "coeff (QUBO_of es) (u, u) = - 1 * as_first es u - 3 * as_second es u"
    if "loop_free es"
    using that by (simp add: coeff_QUBO_of loop_free_occurrences)
  moreover have "coeff (QUBO_of es) (u, v) = 2 * occurrences es (u, v)" if "u \<noteq> v"
    using that by (simp add: coeff_QUBO_of)
  ultimately show ?thesis by blast
qed

text \<open>
  C1, witness: the edge list \<open>[(0, 1), (1, 2)]\<close> has no self-loop; the entry at \<open>(1, 2)\<close>
  is \<open>2\<close> and the entry at \<open>(1, 1)\<close> is \<open>- 1 - 3 = - 4\<close>.
\<close>

theorem QUBO_of_closed_form_witness:
  "(1 :: node) \<noteq> 2 \<and> loop_free [(0, 1), (1, 2)] \<and>
   coeff (QUBO_of [(0, 1), (1, 2)]) (1, 2) = 2 \<and>
   coeff (QUBO_of [(0, 1), (1, 2)]) (1, 1) = - 4 \<and>
   spec_table [(0, 1), (1, 2)] (1, 1) = - 4"
  using QUBO_of_closed_form [of "[(0, 1), (1, 2)]" 1 2]
  by (simp add: loop_free_def occurrences_def as_first_def as_second_def
      spec_table_def spec_increments_def)

section \<open>The coefficient table: keys\<close>

text \<open>
  C2, on the edge list \<open>[(0, 1)]\<close>: the key \<open>(0, 1)\<close> holds \<open>2\<close>, while the key \<open>(1, 0)\<close> is
  not in the table, and reads as \<open>0\<close>. A Python tuple is an ordered pair.
\<close>

theorem unordered_key_counterexample:
  "coeff (QUBO_of [(0, 1)]) (0, 1) = 2 \<and> coeff (QUBO_of [(0, 1)]) (1, 0) = 0 \<and>
   contains (QUBO_of [(0, 1)]) (0, 1) \<and> \<not> contains (QUBO_of [(0, 1)]) (1, 0)"
  by (simp add: QUBO_of_def coeff_def contains_def)

text \<open>
  C2, as amended. The table is keyed by ordered pairs of node indices. For two distinct
  nodes \<open>u\<close> and \<open>v\<close> the key \<open>(u, v)\<close> is in the table exactly when the ordered edge
  \<open>(u, v)\<close> is in the edge list, its weight is \<open>2\<close> times the number of occurrences of that
  ordered edge, and looking up \<open>(v, u)\<close> yields the same weight as looking up \<open>(u, v)\<close>
  exactly when the two ordered edges occur equally often.
\<close>

theorem keys_are_ordered_pairs:
  assumes "u \<noteq> v"
  shows "contains (QUBO_of es) (u, v) = ((u, v) \<in> set es) \<and>
         coeff (QUBO_of es) (u, v) = 2 * occurrences es (u, v) \<and>
         (coeff (QUBO_of es) (v, u) = coeff (QUBO_of es) (u, v))
           = (occurrences es (v, u) = occurrences es (u, v))"
proof -
  have "contains (QUBO_of es) (u, v) = ((u, v) \<in> set es)"
    using assms by (auto simp: contains_QUBO_of)
  moreover have "coeff (QUBO_of es) (u, v) = 2 * occurrences es (u, v)"
    and "coeff (QUBO_of es) (v, u) = 2 * occurrences es (v, u)"
    using assms by (simp_all add: coeff_QUBO_of)
  ultimately show ?thesis by simp
qed

text \<open>C2, witness: the nodes \<open>0\<close> and \<open>1\<close> and the edge list \<open>[(0, 1)]\<close>.\<close>

theorem keys_are_ordered_pairs_witness:
  "(0 :: node) \<noteq> 1 \<and> contains (QUBO_of [(0, 1)]) (0, 1) \<and>
   coeff (QUBO_of [(0, 1)]) (0, 1) = 2 \<and>
   coeff (QUBO_of [(0, 1)]) (1, 0) \<noteq> coeff (QUBO_of [(0, 1)]) (0, 1)"
  using keys_are_ordered_pairs [of 0 1 "[(0, 1)]"]
  by (simp add: occurrences_def)

text \<open>
  C10. After the loop the self-pair key \<open>(w, w)\<close> is in the table if and only if the node
  \<open>w\<close> is an end of at least one edge; a node with no edge has no diagonal entry at all.
\<close>

theorem diagonal_key_iff_incident:
  "contains (QUBO_of es) (w, w) = incident es w \<and>
   (map_of (QUBO_of es) (w, w) = None) = (\<not> incident es w)"
proof -
  have "contains (QUBO_of es) (w, w) = incident es w"
    by (auto simp: contains_QUBO_of incident_def list_ex_iff)
  then show ?thesis
    unfolding contains_def by auto
qed

section \<open>The coefficient table: order of the edges and sum of the values\<close>

text \<open>
  C4. Two edge lists with the same ordered edges, each as often in the one as in the
  other, give the same table: the same keys with the same values, which is equality of
  Python dictionaries.
\<close>

theorem QUBO_of_permutation_invariant:
  assumes "mset es = mset es'"
  shows "dict_eq (QUBO_of es) (QUBO_of es') \<and> map_of (QUBO_of es) = map_of (QUBO_of es')"
proof -
  have m: "map_of (QUBO_of es) = map_of (QUBO_of es')"
    using assms by (rule mset_map_of_QUBO_of)
  have "dict_eq (QUBO_of es) (QUBO_of es')"
    using distinct_QUBO_of distinct_QUBO_of m by (rule dict_eqI)
  with m show ?thesis by blast
qed

text \<open>C4, witness: two edges, in both orders.\<close>

theorem QUBO_of_permutation_invariant_witness:
  "mset [(0 :: node, 1 :: node), (2, 3)] = mset [(2, 3), (0, 1)] \<and>
   dict_eq (QUBO_of [(0, 1), (2, 3)]) (QUBO_of [(2, 3), (0, 1)])"
proof -
  have h: "mset [(0 :: node, 1 :: node), (2, 3)] = mset [(2, 3), (0, 1)]"
    by (simp add: add_mset_commute)
  show ?thesis
    using h QUBO_of_permutation_invariant [OF h] by blast
qed

text \<open>
  C5. After \<open>k\<close> edges the values of the table add up to \<open>- 2 * k\<close>, the loop goes on from
  that table with the remaining edges, and after all edges the values add up to \<open>- 2\<close>
  times the number of edges.
\<close>

theorem sum_values_invariant:
  assumes "k \<le> length es"
  shows "QUBO_of es = QUBO_loop (QUBO_of (take k es)) (drop k es) \<and>
         sum_values (QUBO_of (take k es)) = - 2 * int k \<and>
         sum_values (QUBO_of es) = - 2 * int (length es)"
proof -
  have "QUBO_loop [] (take k es @ drop k es) = QUBO_loop (QUBO_loop [] (take k es)) (drop k es)"
    by (rule QUBO_loop_append)
  then have split: "QUBO_of es = QUBO_loop (QUBO_of (take k es)) (drop k es)"
    by (simp add: QUBO_of_def)
  have sum: "sum_values (QUBO_of xs) = - 2 * int (length xs)" for xs
    by (simp add: QUBO_of_def sum_values_QUBO_loop sum_values_Nil)
  have "length (take k es) = k"
    using assms by simp
  then have "sum_values (QUBO_of (take k es)) = - 2 * int k"
    by (simp only: sum)
  with split sum show ?thesis by blast
qed

text \<open>C5, witness: after the first of two edges the sum is \<open>- 2\<close>, after both \<open>- 4\<close>.\<close>

theorem sum_values_invariant_witness:
  "(1 :: nat) \<le> length [(0 :: node, 1 :: node), (1, 2)] \<and>
   sum_values (QUBO_of (take 1 [(0, 1), (1, 2)])) = - 2 \<and>
   sum_values (QUBO_of [(0, 1), (1, 2)]) = - 4"
  using sum_values_invariant [of 1 "[(0, 1), (1, 2)]", THEN conjunct2] by simp

section \<open>The size of the graph\<close>

text \<open>
  C3. In every world a run of the notebook asks \<^verbatim>\<open>nx.gnm_random_graph\<close> for a graph
  exactly once, as its first call, with the node count \<open>240\<close>, the edge count \<open>11472\<close>
  and the seed \<open>2\<close>. The edge count is what binary64 arithmetic computes for
  \<^verbatim>\<open>round(nodes * (nodes-1)/2 * 0.4)\<close>, and the product that is rounded is the integer
  \<open>11472\<close> exactly. Both counts are constants of the notebook: they are the same in every
  world.
\<close>

theorem graph_size:
  assumes "run w = (r, tr)"
  shows "nodes = 240 \<and> edges = 11472 \<and>
     float_mul (int_truediv (nodes * (nodes - 1)) 2) (float_literal 4 10)
       = (11472 * 2 ^ 39, - 39) \<and>
     (\<exists>out. take 1 tr = [(Call ''nx.gnm_random_graph'' [IntV 240, IntV 11472, IntV 2] [], out)] \<and>
            filter is_gnm_random_graph tr = take 1 tr)"
proof -
  have "float_mul (int_truediv (nodes * (nodes - 1)) 2) (float_literal 4 10)
      = (6306798696923136, - 39)"
    unfolding float_literal_0_4 nodes_truediv product_0_4 ..
  moreover have "(6306798696923136 :: int) = 11472 * 2 ^ 39"
    by simp
  ultimately have product: "float_mul (int_truediv (nodes * (nodes - 1)) 2) (float_literal 4 10)
      = (11472 * 2 ^ 39, - 39)"
    by (simp only:)
  have "after notebook w [] (\<lambda>r tr.
      \<exists>out. take 1 tr = [(Call ''nx.gnm_random_graph'' [IntV nodes, IntV edges, IntV seed] [], out)] \<and>
            filter is_gnm_random_graph tr = take 1 tr)"
    unfolding notebook_defs by (rule after_rules)+ simp_all
  from after_run [OF this assms]
  have "\<exists>out. take 1 tr = [(Call ''nx.gnm_random_graph'' [IntV 240, IntV 11472, IntV 2] [], out)] \<and>
            filter is_gnm_random_graph tr = take 1 tr"
    unfolding edges_value nodes_def seed_def .
  with product show ?thesis
    by (simp only: nodes_def edges_value simp_thms)
qed

text \<open>
  C3, witness: in the world where every call returns, the one call of the generator is
  the first event of the run.
\<close>

theorem graph_size_witness:
  "fst (run calm_world) = Inr (ObjV 9) \<and>
   filter is_gnm_random_graph (snd (run calm_world)) =
     [(Call ''nx.gnm_random_graph'' [IntV 240, IntV 11472, IntV 2] [], Inr (ObjV 0))]"
  using graph_size [OF run_calm_world]
  by (simp add: run_calm_world)

section \<open>The calls of the notebook\<close>

text \<open>
  C7. In every world, a run of the notebook searches for an embedding at most once, and
  exactly once when the run completes. The search is given the edges of the graph that
  \<^verbatim>\<open>nx.complete_graph\<close> returned for \<open>solver_limit = 40\<close> nodes; the wrapper
  \<^verbatim>\<open>FixedEmbeddingComposite\<close> is given the embedding that this one search returned, and
  \<^verbatim>\<open>sample_qubo\<close> is given the solver that this one wrapper call returned.
\<close>

theorem embedding_computed_once:
  assumes "run w = (r, tr)"
  shows "solver_limit = 40 \<and>
     length (filter is_find_embedding tr) \<le> 1 \<and>
     (\<forall>ev \<in> set tr. is_find_embedding ev \<longrightarrow>
        (\<exists>G G_edges system_edgelist.
           fst ev = Call ''minorminer.find_embedding'' [G_edges, system_edgelist] [] \<and>
           (Call ''nx.complete_graph'' [IntV solver_limit] [], Inr G) \<in> set tr \<and>
           (GetAttr G ''edges'', Inr G_edges) \<in> set tr)) \<and>
     (\<forall>ev \<in> set tr. is_fixed_embedding_composite ev \<longrightarrow>
        (\<exists>system embedding c.
           fst ev = Call ''FixedEmbeddingComposite'' [system, embedding] [] \<and>
           filter is_find_embedding tr = [(c, Inr embedding)])) \<and>
     (\<forall>ev \<in> set tr. is_sample_qubo ev \<longrightarrow>
        (\<exists>c solver qbsolv Q kw.
           filter is_fixed_embedding_composite tr = [(c, Inr solver)] \<and>
           fst ev = Method qbsolv ''sample_qubo'' [QuboV Q] ((''solver'', solver) # kw))) \<and>
     (\<forall>response. r = Inr response \<longrightarrow>
        length (filter is_find_embedding tr) = 1 \<and>
        length (filter is_fixed_embedding_composite tr) = 1 \<and>
        length (filter is_sample_qubo tr) = 1)"
proof -
  have "after notebook w [] (\<lambda>r tr. length (filter is_find_embedding tr) \<le> 1)"
    unfolding notebook_defs by (rule after_rules)+ simp_all
  note count = after_run [OF this assms]
  have "after notebook w [] (\<lambda>r tr. \<forall>ev \<in> set tr. is_find_embedding ev \<longrightarrow>
        (\<exists>G G_edges system_edgelist.
           fst ev = Call ''minorminer.find_embedding'' [G_edges, system_edgelist] [] \<and>
           (Call ''nx.complete_graph'' [IntV solver_limit] [], Inr G) \<in> set tr \<and>
           (GetAttr G ''edges'', Inr G_edges) \<in> set tr))"
    unfolding notebook_defs by (rule after_rules)+ simp_all
  note args = after_run [OF this assms]
  have "after notebook w [] (\<lambda>r tr. \<forall>ev \<in> set tr. is_fixed_embedding_composite ev \<longrightarrow>
        (\<exists>system embedding c.
           fst ev = Call ''FixedEmbeddingComposite'' [system, embedding] [] \<and>
           filter is_find_embedding tr = [(c, Inr embedding)]))"
    unfolding notebook_defs by (rule after_rules)+ simp_all
  note wrapper = after_run [OF this assms]
  have "after notebook w [] (\<lambda>r tr. \<forall>ev \<in> set tr. is_sample_qubo ev \<longrightarrow>
        (\<exists>c solver qbsolv Q kw.
           filter is_fixed_embedding_composite tr = [(c, Inr solver)] \<and>
           fst ev = Method qbsolv ''sample_qubo'' [QuboV Q] ((''solver'', solver) # kw)))"
    unfolding notebook_defs by (rule after_rules)+ simp_all
  note solver = after_run [OF this assms]
  have "after notebook w [] (\<lambda>r tr. \<forall>response. r = Inr response \<longrightarrow>
        length (filter is_find_embedding tr) = 1 \<and>
        length (filter is_fixed_embedding_composite tr) = 1 \<and>
        length (filter is_sample_qubo tr) = 1)"
    unfolding notebook_defs by (rule after_rules)+ simp_all
  note completed = after_run [OF this assms]
  have "solver_limit = 40"
    by (simp add: solver_limit_def)
  with count args wrapper solver completed show ?thesis
    by (intro conjI)
qed

text \<open>
  C7, witness: in the world where every call returns, the run completes with one search
  for an embedding.
\<close>

theorem embedding_computed_once_witness:
  "fst (run calm_world) = Inr (ObjV 9) \<and>
   filter is_find_embedding (snd (run calm_world)) =
     [(Call ''minorminer.find_embedding'' [EdgesV [(0, 1), (1, 2)], ObjV 5] [], Inr (ObjV 6))] \<and>
   length (filter is_find_embedding (snd (run calm_world))) = 1"
  using embedding_computed_once [OF run_calm_world]
  by (simp add: run_calm_world)

text \<open>
  C8. In every world, each call of \<^verbatim>\<open>sample_qubo\<close> receives the keyword arguments
  \<^verbatim>\<open>num_repeats\<close>, \<^verbatim>\<open>solver_limit\<close> and \<^verbatim>\<open>num_reads\<close> with the values of the notebook's
  variables of these names, which are \<open>2\<close>, \<open>40\<close> and \<open>100\<close>; a run that completes makes
  one such call.
\<close>

theorem solver_parameters_verbatim:
  assumes "run w = (r, tr)"
  shows "solver_limit = 40 \<and> num_repeats = 2 \<and> num_reads = 100 \<and>
     (\<forall>ev \<in> set tr. is_sample_qubo ev \<longrightarrow>
        (\<exists>qbsolv Q solver.
           fst ev = Method qbsolv ''sample_qubo'' [QuboV Q]
             [(''solver'', solver), (''num_repeats'', IntV num_repeats),
              (''solver_limit'', IntV solver_limit), (''num_reads'', IntV num_reads)])) \<and>
     (\<forall>response. r = Inr response \<longrightarrow> length (filter is_sample_qubo tr) = 1)"
proof -
  have "after notebook w [] (\<lambda>r tr. \<forall>ev \<in> set tr. is_sample_qubo ev \<longrightarrow>
        (\<exists>qbsolv Q solver.
           fst ev = Method qbsolv ''sample_qubo'' [QuboV Q]
             [(''solver'', solver), (''num_repeats'', IntV num_repeats),
              (''solver_limit'', IntV solver_limit), (''num_reads'', IntV num_reads)]))"
    unfolding notebook_defs by (rule after_rules)+ simp_all
  note kwargs = after_run [OF this assms]
  have "after notebook w [] (\<lambda>r tr. \<forall>response. r = Inr response \<longrightarrow>
        length (filter is_sample_qubo tr) = 1)"
    unfolding notebook_defs by (rule after_rules)+ simp_all
  note completed = after_run [OF this assms]
  have "solver_limit = 40" "num_repeats = 2" "num_reads = 100"
    by (simp_all add: solver_limit_def num_repeats_def num_reads_def)
  with kwargs completed show ?thesis
    by (intro conjI)
qed

text \<open>C8, witness: the call of \<^verbatim>\<open>sample_qubo\<close> in the world where every call returns.\<close>

theorem solver_parameters_verbatim_witness:
  "fst (run calm_world) = Inr (ObjV 9) \<and>
   map fst (filter is_sample_qubo (snd (run calm_world))) =
     [Method (ObjV 8) ''sample_qubo'' [QuboV (QUBO_of [(0, 1), (1, 2)])]
        [(''solver'', ObjV 7), (''num_repeats'', IntV 2),
         (''solver_limit'', IntV 40), (''num_reads'', IntV 100)]]"
  using solver_parameters_verbatim [OF run_calm_world]
  by (simp add: run_calm_world)

text \<open>
  C9. In every world, when a call raises an exception, that call is the last event of
  the run, nothing is called after it, and the exception is the result of the notebook.
\<close>

theorem exceptions_propagate:
  assumes "run w = (r, tr)" and "tr = pre @ (c, Inl e) # post"
  shows "post = [] \<and> r = Inl e"
proof -
  have "after notebook w []
      (\<lambda>r tr. \<forall>pre c e post. tr = pre @ (c, Inl e) # post \<longrightarrow> post = [] \<and> r = Inl e)"
    unfolding notebook_defs
    by (rule after_rules)+ (simp_all add: append_eq_Cons_conv Cons_eq_append_conv)
  from after_run [OF this assms(1)] assms(2) show ?thesis
    by blast
qed

text \<open>
  C9, witness: in the world where the search for an embedding raises \<^verbatim>\<open>ValueError\<close>, the
  run ends with that call and that exception.
\<close>

theorem exceptions_propagate_witness:
  "fst (run stormy_world) = Inl (Exn ''ValueError'') \<and>
   last (snd (run stormy_world)) =
     (Call ''minorminer.find_embedding'' [EdgesV [(0, 1), (1, 2)], ObjV 5] [],
      Inl (Exn ''ValueError''))"
  using exceptions_propagate [OF run_stormy_world refl]
  by (simp add: run_stormy_world)

end
